theory Spec2Isabelle
  imports Main "HOL-Library.Sublist"
begin

section \<open>Strings and exceptions\<close>

text \<open>
  A Python \<open>str\<close> is a sequence of Unicode code points, so it is modelled as a list of
  natural numbers; \<open>ustr\<close> embeds an 8-bit literal, character by character. A \<open>bytes\<close>
  object is a list of numbers below 256.
\<close>

type_synonym pystr = "nat list"
type_synonym pybytes = "nat list"

abbreviation ustr :: "string \<Rightarrow> pystr" where
  "ustr s \<equiv> map (\<lambda>c. nat (of_char c)) s"

text \<open>An exception is a value: its class and its message.\<close>

datatype error =
    Exception pystr
  | ValueError pystr
  | IndexError pystr
  | KeyError pystr
  | TypeError pystr
  | AttributeError pystr
  | UnicodeEncodeError pystr
  | UnicodeDecodeError pystr
  | OSError pystr
  | ClientError pystr

text \<open>
  The objects that the fields of a format string can reach: a string, or another object
  (a bound method, a class), known by a handle only.
\<close>

datatype pyobj = Str pystr | Other nat

section \<open>The environment of a run\<close>

text \<open>
  Both scripts lean on the interpreter's Unicode tables and builtins, on the file system
  and on the wiki client library. None of them is code of the repository, so they are the parameters
  of a run:
  \<^item> \<open>decimal_value\<close>: the decimal-digit value of a code point beyond ASCII in the
    interpreter's Unicode database, if it is a decimal digit (category Nd);
  \<^item> \<open>char_by_name\<close>: the code point of a Unicode character name;
  \<^item> \<open>field_lookup\<close>: the object that the attribute and index lookups of a
    replacement field (\<open>.name\<close>, \<open>[index]\<close>) reach from a string, or the error they raise;
  \<^item> \<open>builtin_conv\<close>: \<open>repr(obj)\<close>, \<open>str(obj)\<close> and \<open>ascii(obj)\<close>, chosen by the
    conversion character \<open>r\<close>, \<open>s\<close> or \<open>a\<close>;
  \<^item> \<open>builtin_format\<close>: \<open>format(obj, spec)\<close>;
  \<^item> \<open>file_read\<close>: what \<open>open(filename, "r").read()\<close> gives, or the error it raises;
  \<^item> \<open>site_connect\<close>, \<open>page_load\<close>, \<open>page_save\<close>: the wiki client, each call of
    which may raise.
\<close>

record env =
  decimal_value :: "nat \<Rightarrow> nat option"
  char_by_name :: "pystr \<Rightarrow> nat option"
  field_lookup :: "pystr \<Rightarrow> pystr \<Rightarrow> error + pyobj"
  builtin_conv :: "nat \<Rightarrow> pyobj \<Rightarrow> error + pystr"
  builtin_format :: "pyobj \<Rightarrow> pystr \<Rightarrow> error + pystr"
  file_read :: "pystr \<Rightarrow> error + pystr"
  site_connect :: "pystr \<Rightarrow> error option"
  page_load :: "pystr \<Rightarrow> error + pystr"
  page_save :: "pystr \<Rightarrow> pystr \<Rightarrow> pystr \<Rightarrow> bool \<Rightarrow> error option"

text \<open>The digit value of a code point: \<open>0\<close> to \<open>9\<close> in ASCII, the table beyond.\<close>

definition to_decimal :: "env \<Rightarrow> nat \<Rightarrow> nat option" where
  "to_decimal E c = (if 48 \<le> c \<and> c \<le> 57 then Some (c - 48) else decimal_value E c)"

definition is_decimal :: "env \<Rightarrow> nat \<Rightarrow> bool" where
  "is_decimal E c = (to_decimal E c \<noteq> None)"

text \<open>What a run did to the outside world, in order.\<close>

datatype event =
    FileRead pystr
  | SiteConnect pystr
  | PageHandle pystr
  | PageLoad pystr
  | PageSave pystr pystr pystr bool

text \<open>
  The outcome of a run: the exception that ended it, if any, and the trace of the
  operations it attempted on the file system and the wiki.
\<close>

type_synonym outcome = "error option \<times> event list"

section \<open>Regular expressions (the fragment of \<open>re\<close> the scripts use)\<close>

text \<open>
  A pattern is a sequence of items over one-character classes: a literal, the dot (with
  the \<open>DOTALL\<close> flag it also matches a newline), or a character category such as \<open>\d\<close>.
\<close>

datatype cclass = Lit nat | Dot bool | Category "nat \<Rightarrow> bool"

fun accepts :: "cclass \<Rightarrow> nat \<Rightarrow> bool" where
  "accepts (Lit a) c = (c = a)"
| "accepts (Dot dotall) c = (dotall \<or> c \<noteq> 10)"
| "accepts (Category P) c = P c"

text \<open>
  Items: one character, \<open>x{n}\<close>, the lazy \<open>x+?\<close>, the greedy \<open>x*\<close>, the two ends of
  capture group \<open>g\<close>, and \<open>$\<close>.
\<close>

datatype re_item =
    One cclass
  | Times cclass nat
  | LazyPlus cclass
  | GreedyStar cclass
  | GroupOpen nat
  | GroupClose nat
  | AtEnd

type_synonym marks = "nat \<Rightarrow> nat option"

text \<open>
  What the top level asks of a successful path before it accepts it: nothing
  (\<open>search\<close>), that it ends at the end of the string (\<open>fullmatch\<close>), or that it is not
  an empty match at the given position (the search that follows an empty match in
  \<open>sub\<close>).
\<close>

datatype accept = Anywhere | WholeString | Advance nat

fun final_ok :: "accept \<Rightarrow> pystr \<Rightarrow> nat \<Rightarrow> bool" where
  "final_ok Anywhere s p = True"
| "final_ok WholeString s p = (s = [])"
| "final_ok (Advance st) s p = (p \<noteq> st)"

text \<open>
  The backtracking matcher: \<open>s\<close> is the text from position \<open>p\<close> on, \<open>m\<close> the marks set so
  far. It returns the end and the marks of the first path that succeeds, in the order in
  which \<open>re\<close> tries them: a lazy repeat tries the rest of the pattern before another
  character, a greedy one another character first. \<open>$\<close> holds at the end of the string
  and before a newline that ends it.
\<close>

fun re_run :: "accept \<Rightarrow> re_item list \<Rightarrow> pystr \<Rightarrow> nat \<Rightarrow> marks \<Rightarrow> (nat \<times> marks) option" where
  "re_run a [] s p m = (if final_ok a s p then Some (p, m) else None)"
| "re_run a (One c # r) [] p m = None"
| "re_run a (One c # r) (x # xs) p m =
     (if accepts c x then re_run a r xs (Suc p) m else None)"
| "re_run a (Times c n # r) [] p m = (if n = 0 then re_run a r [] p m else None)"
| "re_run a (Times c n # r) (x # xs) p m =
     (if n = 0 then re_run a r (x # xs) p m
      else if accepts c x then re_run a (Times c (n - 1) # r) xs (Suc p) m
      else None)"
| "re_run a (LazyPlus c # r) [] p m = None"
| "re_run a (LazyPlus c # r) (x # xs) p m =
     (if accepts c x
      then (case re_run a r xs (Suc p) m of
              Some res \<Rightarrow> Some res
            | None \<Rightarrow> re_run a (LazyPlus c # r) xs (Suc p) m)
      else None)"
| "re_run a (GreedyStar c # r) [] p m = re_run a r [] p m"
| "re_run a (GreedyStar c # r) (x # xs) p m =
     (if accepts c x
      then (case re_run a (GreedyStar c # r) xs (Suc p) m of
              Some res \<Rightarrow> Some res
            | None \<Rightarrow> re_run a r (x # xs) p m)
      else re_run a r (x # xs) p m)"
| "re_run a (GroupOpen g # r) s p m = re_run a r s p (m(2 * g \<mapsto> p))"
| "re_run a (GroupClose g # r) s p m = re_run a r s p (m(2 * g + 1 \<mapsto> p))"
| "re_run a (AtEnd # r) s p m = (if s = [] \<or> s = [10] then re_run a r s p m else None)"

text \<open>A match object: its span and the marks of its groups.\<close>

record rmatch =
  m_start :: nat
  m_end :: nat
  m_marks :: marks

definition slice :: "nat \<Rightarrow> nat \<Rightarrow> 'a list \<Rightarrow> 'a list" where
  "slice i j xs = take (j - i) (drop i xs)"

text \<open>\<open>match.group(g)\<close>: the text of group \<open>g\<close>, \<open>None\<close> if the group took no part.\<close>

definition group :: "pystr \<Rightarrow> rmatch \<Rightarrow> nat \<Rightarrow> pystr option" where
  "group text mt g =
     (if g = 0 then Some (slice (m_start mt) (m_end mt) text)
      else case (m_marks mt (2 * g), m_marks mt (2 * g + 1)) of
             (Some i, Some j) \<Rightarrow> Some (slice i j text)
           | _ \<Rightarrow> None)"

text \<open>
  The scan of \<open>search\<close>: the pattern is tried at \<open>p\<close>, then at each later position up to
  the end of the string. \<open>adv\<close> (the engine's \<open>must_advance\<close>) forbids an empty match
  at the first position only.
\<close>

fun re_scan :: "bool \<Rightarrow> re_item list \<Rightarrow> pystr \<Rightarrow> nat \<Rightarrow> rmatch option" where
  "re_scan adv re [] p =
     (case re_run (if adv then Advance p else Anywhere) re [] p Map.empty of
        Some (e, mk) \<Rightarrow> Some \<lparr>m_start = p, m_end = e, m_marks = mk\<rparr>
      | None \<Rightarrow> None)"
| "re_scan adv re (x # xs) p =
     (case re_run (if adv then Advance p else Anywhere) re (x # xs) p Map.empty of
        Some (e, mk) \<Rightarrow> Some \<lparr>m_start = p, m_end = e, m_marks = mk\<rparr>
      | None \<Rightarrow> re_scan False re xs (Suc p))"

definition re_search :: "re_item list \<Rightarrow> pystr \<Rightarrow> rmatch option" where
  "re_search re text = re_scan False re text 0"

text \<open>\<open>re.fullmatch\<close>: the pattern at position 0 only, and to the end of the string.\<close>

definition re_fullmatch :: "re_item list \<Rightarrow> pystr \<Rightarrow> rmatch option" where
  "re_fullmatch re text =
     (case re_run WholeString re text 0 Map.empty of
        Some (e, mk) \<Rightarrow> Some \<lparr>m_start = 0, m_end = e, m_marks = mk\<rparr>
      | None \<Rightarrow> None)"

section \<open>\<open>re.sub\<close>\<close>

text \<open>
  A successful path ends between its start and the end of the string, and a path accepted
  under \<open>Advance\<close> does not end where it is forbidden to. This is what makes the loop of
  \<open>sub\<close> terminate.
\<close>

lemma re_run_bounds:
  "re_run a re s p m = Some (e, mk) \<Longrightarrow> p \<le> e \<and> e \<le> p + length s"
proof (induction a re s p m rule: re_run.induct)
  case (7 a c r x xs p m)
  then show ?case by (fastforce split: if_splits option.splits)
next
  case (9 a c r x xs p m)
  then show ?case by (fastforce split: if_splits option.splits)
qed (fastforce split: if_splits)+

lemma re_run_advance:
  "re_run (Advance st) re s p m = Some (e, mk) \<Longrightarrow> e \<noteq> st"
proof (induction "Advance st" re s p m rule: re_run.induct)
  case (7 c r x xs p m)
  then show ?case by (fastforce split: if_splits option.splits)
next
  case (9 c r x xs p m)
  then show ?case by (fastforce split: if_splits option.splits)
qed (fastforce split: if_splits)+

lemma re_scan_bounds:
  "re_scan adv re s p = Some mt \<Longrightarrow>
     p \<le> m_start mt \<and> m_start mt \<le> m_end mt \<and> m_end mt \<le> p + length s \<and> (\<not> adv \<or> m_end mt \<noteq> p)"
proof (induction s arbitrary: adv p)
  case Nil
  then show ?case
    by (cases adv) (auto split: option.splits dest: re_run_bounds re_run_advance)
next
  case (Cons x xs)
  show ?case
  proof (cases "re_run (if adv then Advance p else Anywhere) re (x # xs) p Map.empty")
    case None
    with Cons.prems have "re_scan False re xs (Suc p) = Some mt" by simp
    from Cons.IH[OF this] show ?thesis by auto
  next
    case (Some res)
    obtain e mk where res: "res = (e, mk)" by (cases res)
    with Some Cons.prems have mt: "mt = \<lparr>m_start = p, m_end = e, m_marks = mk\<rparr>" by simp
    from Some res re_run_bounds have "p \<le> e \<and> e \<le> p + length (x # xs)" by blast
    moreover have "adv \<Longrightarrow> e \<noteq> p" using Some res re_run_advance by (cases adv) auto
    ultimately show ?thesis using mt by auto
  qed
qed

text \<open>
  The loop of \<open>re.sub\<close> with a function as replacement: the text from \<open>i\<close> up to the
  next match is copied, the match is replaced by what \<open>repl\<close> returns (an exception of
  \<open>repl\<close> ends the substitution), and the search resumes at the end of the match, where an
  empty match may not follow an empty match.
\<close>

function re_sub_from :: "re_item list \<Rightarrow> (rmatch \<Rightarrow> error + pystr) \<Rightarrow> pystr \<Rightarrow> nat \<Rightarrow> bool \<Rightarrow> error + pystr" where
  "re_sub_from re repl text i adv =
     (case re_scan adv re (drop i text) i of
        None \<Rightarrow> Inr (drop i text)
      | Some mt \<Rightarrow>
          (case repl mt of
             Inl err \<Rightarrow> Inl err
           | Inr new \<Rightarrow>
               (case re_sub_from re repl text (m_end mt) (m_end mt = m_start mt) of
                  Inl err \<Rightarrow> Inl err
                | Inr rest \<Rightarrow> Inr (slice i (m_start mt) text @ new @ rest))))"
  by pat_completeness auto
termination
proof (relation "measure (\<lambda>(re, repl, text, i, adv). 2 * (length text - i) + (if adv then 0 else 1))", goal_cases)
  case 1
  then show ?case by simp
next
  case (2 re repl tx i adv mt new)
  from re_scan_bounds[OF "2"(1)]
  have b: "i \<le> m_start mt" "m_start mt \<le> m_end mt" "m_end mt \<le> i + length (drop i tx)"
    "\<not> adv \<or> m_end mt \<noteq> i" by auto
  show ?case
  proof (cases "m_end mt = i")
    case True
    with b show ?thesis by auto
  next
    case False
    with b have "i < m_end mt" "m_end mt \<le> length tx" by auto
    then show ?thesis by auto
  qed
qed

declare re_sub_from.simps [simp del]

definition re_sub :: "re_item list \<Rightarrow> (rmatch \<Rightarrow> error + pystr) \<Rightarrow> pystr \<Rightarrow> error + pystr" where
  "re_sub re repl text = re_sub_from re repl text 0 False"

section \<open>\<open>str.replace\<close>\<close>

text \<open>
  \<open>s.replace(old, new)\<close>: the occurrences of \<open>old\<close> are found from left to right, each
  search resuming after the previous occurrence; an empty \<open>old\<close> matches before every
  character and at the end.
\<close>

function str_replace :: "pystr \<Rightarrow> pystr \<Rightarrow> pystr \<Rightarrow> pystr" where
  "str_replace [] old new = (if old = [] then new else [])"
| "str_replace (c # s) old new =
     (if old = [] then new @ c # str_replace s old new
      else if prefix old (c # s) then new @ str_replace (drop (length old) (c # s)) old new
      else c # str_replace s old new)"
  by pat_completeness auto
termination
  by (relation "measure (\<lambda>(s, old, new). length s)") auto

section \<open>\<open>str.format\<close> with positional string arguments\<close>

text \<open>
  The format string is read from left to right: literal text, a doubled brace for a
  brace, and replacement fields \<open>{name!conversion:spec}\<close>. The scanners below return
  what they read and the text that follows.
\<close>

definition emit :: "pystr \<Rightarrow> error + pystr \<Rightarrow> error + pystr" where
  "emit out r = (case r of Inl err \<Rightarrow> Inl err | Inr t \<Rightarrow> Inr (out @ t))"

definition keep :: "nat \<Rightarrow> error + (pystr \<times> 'a) \<Rightarrow> error + (pystr \<times> 'a)" where
  "keep c r = (case r of Inl err \<Rightarrow> Inl err | Inr (w, x) \<Rightarrow> Inr (c # w, x))"

text \<open>
  The field name runs to the first \<open>}\<close>, \<open>:\<close> or \<open>!\<close> outside square brackets
  (\<open>inb\<close>: inside them); the result is the name, that character and the rest.
\<close>

fun scan_name :: "bool \<Rightarrow> pystr \<Rightarrow> error + (pystr \<times> nat \<times> pystr)" where
  "scan_name inb [] = Inl (ValueError (ustr ''expected '}' before end of string''))"
| "scan_name inb (c # s) =
     (if inb then keep c (scan_name (c \<noteq> 93) s)
      else if c = 123 then Inl (ValueError (ustr ''unexpected '{' in field name''))
      else if c = 91 then keep c (scan_name True s)
      else if c = 125 \<or> c = 58 \<or> c = 33 then Inr ([], c, s)
      else keep c (scan_name False s))"

text \<open>The format specification runs to the brace that closes the field (\<open>n\<close> are open).\<close>

fun scan_spec :: "nat \<Rightarrow> pystr \<Rightarrow> error + (pystr \<times> pystr)" where
  "scan_spec n [] = Inl (ValueError (ustr ''unmatched '{' in format spec''))"
| "scan_spec n (c # s) =
     (if c = 123 then keep c (scan_spec (Suc n) s)
      else if c = 125 then (if n \<le> 1 then Inr ([], s) else keep c (scan_spec (n - 1) s))
      else keep c (scan_spec n s))"

definition with_conv :: "pystr \<Rightarrow> nat option \<Rightarrow> error + (pystr \<times> pystr)
    \<Rightarrow> error + (pystr \<times> nat option \<times> pystr \<times> pystr)" where
  "with_conv name conv r =
     (case r of Inl err \<Rightarrow> Inl err | Inr (spec, rest) \<Rightarrow> Inr (name, conv, spec, rest))"

text \<open>A field, from the character after its opening brace: name, conversion, spec, rest.\<close>

definition parse_field :: "pystr \<Rightarrow> error + (pystr \<times> nat option \<times> pystr \<times> pystr)" where
  "parse_field s =
     (case scan_name False s of
        Inl err \<Rightarrow> Inl err
      | Inr (name, c, s1) \<Rightarrow>
          if c = 125 then Inr (name, None, [], s1)
          else if c = 33 then
            (case s1 of
               [] \<Rightarrow> Inl (ValueError (ustr ''end of string while looking for conversion specifier''))
             | conv # s2 \<Rightarrow>
                 (case s2 of
                    [] \<Rightarrow> with_conv name (Some conv) (scan_spec 1 [])
                  | c2 # s3 \<Rightarrow>
                      if c2 = 125 then Inr (name, Some conv, [], s3)
                      else if c2 \<noteq> 58
                      then Inl (ValueError (ustr ''expected ':' after conversion specifier''))
                      else with_conv name (Some conv) (scan_spec 1 s3)))
          else with_conv name None (scan_spec 1 s1))"

text \<open>
  \<open>get_integer\<close>: the value of a string of decimal digits, \<open>None\<close> if a character is not
  one; a value beyond \<open>PY_SSIZE_T_MAX\<close> (of a 64-bit build) is an error.
\<close>

definition PY_SSIZE_T_MAX :: nat where
  "PY_SSIZE_T_MAX = 2 ^ 63 - 1"

fun get_integer :: "env \<Rightarrow> nat \<Rightarrow> pystr \<Rightarrow> error + nat option" where
  "get_integer E acc [] = Inr (Some acc)"
| "get_integer E acc (c # s) =
     (case to_decimal E c of
        None \<Rightarrow> Inr None
      | Some d \<Rightarrow>
          if acc > (PY_SSIZE_T_MAX - d) div 10
          then Inl (ValueError (ustr ''Too many decimal digits in format string''))
          else get_integer E (acc * 10 + d) s)"

text \<open>The state of automatic field numbering, and the number of the next automatic field.\<close>

datatype numbering = ANS_INIT | ANS_AUTO | ANS_MANUAL

type_synonym auto_number = "numbering \<times> nat"

text \<open>Decimal and hexadecimal numerals, for the messages.\<close>

function digits_of :: "nat \<Rightarrow> nat \<Rightarrow> pystr" where
  "digits_of b n =
     (if b < 2 \<or> n < b then [if n < 10 then 48 + n else 87 + n]
      else digits_of b (n div b) @ [if n mod b < 10 then 48 + n mod b else 87 + n mod b])"
  by pat_completeness auto
termination
  by (relation "measure (\<lambda>(b, n). n)") auto

declare digits_of.simps [simp del]

text \<open>
  The object of a field (\<open>get_field_object\<close>), and the numbering state after it. The
  arguments are the positional ones, all strings (the scripts pass no keyword argument),
  so a name that is not a number is a missing key. What follows the argument name, if
  anything, is looked up from the argument.
\<close>

definition lookup_arg :: "pystr \<Rightarrow> nat option \<Rightarrow> pystr list \<Rightarrow> error + pystr" where
  "lookup_arg first index args =
     (case index of
        None \<Rightarrow> Inl (KeyError first)
      | Some i \<Rightarrow>
          if i \<ge> length args
          then Inl (IndexError (ustr ''Replacement index '' @ digits_of 10 i
                 @ ustr '' out of range for positional args tuple''))
          else Inr (args ! i))"

definition get_field_object :: "env \<Rightarrow> auto_number \<Rightarrow> pystr \<Rightarrow> pystr list
    \<Rightarrow> error + (pyobj \<times> auto_number)" where
  "get_field_object E an name args =
     (let first = takeWhile (\<lambda>c. c \<noteq> 46 \<and> c \<noteq> 91) name;
          rest = dropWhile (\<lambda>c. c \<noteq> 46 \<and> c \<noteq> 91) name
      in (case get_integer E 0 first of
            Inl err \<Rightarrow> Inl err
          | Inr idx \<Rightarrow>
              (let numeric = (first = [] \<or> idx \<noteq> None);
                   state = (if fst an = ANS_INIT \<and> numeric
                            then (if first = [] then ANS_AUTO else ANS_MANUAL) else fst an)
               in if numeric \<and> state = ANS_MANUAL \<and> first = []
                  then Inl (ValueError (ustr
                    ''cannot switch from manual field specification to automatic field numbering''))
                  else if numeric \<and> state = ANS_AUTO \<and> first \<noteq> []
                  then Inl (ValueError (ustr
                    ''cannot switch from automatic field numbering to manual field specification''))
                  else
                    (case lookup_arg first (if first = [] then Some (snd an) else idx) args of
                       Inl err \<Rightarrow> Inl err
                     | Inr v \<Rightarrow>
                         if rest = []
                         then Inr (Str v, (state, if first = [] then Suc (snd an) else snd an))
                         else
                           (case field_lookup E v rest of
                              Inl err \<Rightarrow> Inl err
                            | Inr obj \<Rightarrow>
                                Inr (obj, (state, if first = [] then Suc (snd an)
                                                  else snd an)))))))"

text \<open>
  The conversion of a field (\<open>do_conversion\<close>): \<open>!s\<close> of a string is the string, the
  other conversions by \<open>r\<close>, \<open>s\<close> and \<open>a\<close> are the builtins', and any other character
  is an error.
\<close>

definition do_conversion :: "env \<Rightarrow> nat option \<Rightarrow> pyobj \<Rightarrow> error + pyobj" where
  "do_conversion E conv obj =
     (case conv of
        None \<Rightarrow> Inr obj
      | Some cv \<Rightarrow>
          if cv = 114 \<or> cv = 115 \<or> cv = 97 then
            (case obj of
               Str v \<Rightarrow>
                 if cv = 115 then Inr (Str v)
                 else (case builtin_conv E cv obj of
                         Inl err \<Rightarrow> Inl err
                       | Inr t \<Rightarrow> Inr (Str t))
             | Other h \<Rightarrow>
                 (case builtin_conv E cv obj of
                    Inl err \<Rightarrow> Inl err
                  | Inr t \<Rightarrow> Inr (Str t)))
          else if 32 < cv \<and> cv < 127
          then Inl (ValueError (ustr ''Unknown conversion specifier '' @ [cv]))
          else Inl (ValueError (ustr ''Unknown conversion specifier '' @ [92, 120]
                 @ digits_of 16 cv)))"

text \<open>
  The text of a field (\<open>render_field\<close>): a string under an empty format specification
  is itself, anything else is what \<open>format\<close> makes of it.
\<close>

definition render_field :: "env \<Rightarrow> pyobj \<Rightarrow> pystr \<Rightarrow> error + pystr" where
  "render_field E obj spec =
     (case obj of
        Str v \<Rightarrow> if spec = [] then Inr v else builtin_format E obj spec
      | Other h \<Rightarrow> builtin_format E obj spec)"

definition prepend :: "pystr \<Rightarrow> error + (pystr \<times> 'a) \<Rightarrow> error + (pystr \<times> 'a)" where
  "prepend out r = (case r of Inl err \<Rightarrow> Inl err | Inr (t, x) \<Rightarrow> Inr (out @ t, x))"

lemma keep_shorter:
  "keep c r = Inr (w, x, rest) \<Longrightarrow> \<exists>w'. r = Inr (w', x, rest)"
  by (auto simp: keep_def split: sum.splits)

lemma scan_name_shorter:
  "scan_name inb s = Inr (name, c, rest) \<Longrightarrow> length rest < length s"
proof (induction s arbitrary: inb name)
  case Nil
  then show ?case by simp
next
  case (Cons x xs)
  then show ?case
    by (fastforce simp: keep_def split: if_splits sum.splits)
qed

lemma scan_spec_shorter:
  "scan_spec n s = Inr (spec, rest) \<Longrightarrow> length rest < length s"
proof (induction s arbitrary: n spec)
  case Nil
  then show ?case by simp
next
  case (Cons x xs)
  then show ?case
    by (fastforce simp: keep_def split: if_splits sum.splits)
qed

lemma parse_field_shorter:
  assumes "parse_field s = Inr (name, conv, spec, rest)"
  shows "length rest < length s"
  using assms
  by (auto simp: parse_field_def with_conv_def split: sum.splits if_splits list.splits
      dest!: scan_name_shorter scan_spec_shorter)

text \<open>
  The loop of \<open>format\<close> (\<open>build_string\<close>): a lone \<open>}\<close> and a \<open>{\<close> that ends the
  string are errors, a doubled brace gives one brace, any other \<open>{\<close> opens a field. A
  format specification that holds a brace is itself formatted first, with the same
  arguments and the same numbering, one level deeper; \<open>depth\<close> levels are left, and none
  is an error. The result is the text and the numbering state at the end.
\<close>

function fmt_loop :: "env \<Rightarrow> nat \<Rightarrow> auto_number \<Rightarrow> pystr \<Rightarrow> pystr list
    \<Rightarrow> error + (pystr \<times> auto_number)" where
  "fmt_loop E depth an [] args =
     (if depth = 0 then Inl (ValueError (ustr ''Max string recursion exceeded''))
      else Inr ([], an))"
| "fmt_loop E depth an (c # s) args =
     (if depth = 0 then Inl (ValueError (ustr ''Max string recursion exceeded''))
      else if c = 125 then
        (case s of
           [] \<Rightarrow> Inl (ValueError (ustr ''Single '}' encountered in format string''))
         | d # s' \<Rightarrow>
             if d = 125 then prepend [125] (fmt_loop E depth an s' args)
             else Inl (ValueError (ustr ''Single '}' encountered in format string'')))
      else if c = 123 then
        (case s of
           [] \<Rightarrow> Inl (ValueError (ustr ''Single '{' encountered in format string''))
         | d # s' \<Rightarrow>
             if d = 123 then prepend [123] (fmt_loop E depth an s' args)
             else
               (case parse_field (d # s') of
                  Inl err \<Rightarrow> Inl err
                | Inr (name, conv, spec, rest) \<Rightarrow>
                    (case get_field_object E an name args of
                       Inl err \<Rightarrow> Inl err
                     | Inr (obj, an1) \<Rightarrow>
                         (case do_conversion E conv obj of
                            Inl err \<Rightarrow> Inl err
                          | Inr obj' \<Rightarrow>
                              (case (if 123 \<in> set spec
                                     then fmt_loop E (depth - 1) an1 spec args
                                     else Inr (spec, an1)) of
                                 Inl err \<Rightarrow> Inl err
                               | Inr (spec', an2) \<Rightarrow>
                                   (case render_field E obj' spec' of
                                      Inl err \<Rightarrow> Inl err
                                    | Inr out \<Rightarrow>
                                        prepend out (fmt_loop E depth an2 rest args)))))))
      else prepend [c] (fmt_loop E depth an s args))"
  by pat_completeness auto
termination
  by (relation "measures [\<lambda>(E, depth, an, s, args). depth, \<lambda>(E, depth, an, s, args). length s]")
    (auto dest!: parse_field_shorter)

text \<open>\<open>f.format(*args)\<close>: two levels, fresh numbering.\<close>

definition py_format :: "env \<Rightarrow> pystr \<Rightarrow> pystr list \<Rightarrow> error + pystr" where
  "py_format E f args =
     (case fmt_loop E 2 (ANS_INIT, 0) f args of
        Inl err \<Rightarrow> Inl err
      | Inr (t, an) \<Rightarrow> Inr t)"

section \<open>UTF-8 encoding and \<open>unicode_escape\<close> decoding\<close>

text \<open>
  \<open>bytes(s, "utf-8")\<close>: one to four bytes for each code point; a surrogate cannot be
  encoded. (A number above \<open>0x10FFFF\<close> is not a code point and no Python string holds
  one; the model rejects it in the same way.)
\<close>

definition utf8_char :: "nat \<Rightarrow> error + pybytes" where
  "utf8_char c =
     (if c < 0x80 then Inr [c]
      else if c < 0x800 then Inr [0xC0 + c div 64, 0x80 + c mod 64]
      else if 0xD800 \<le> c \<and> c < 0xE000
      then Inl (UnicodeEncodeError (ustr ''surrogates not allowed''))
      else if c < 0x10000
      then Inr [0xE0 + c div 4096, 0x80 + (c div 64) mod 64, 0x80 + c mod 64]
      else if c < 0x110000
      then Inr [0xF0 + c div 262144, 0x80 + (c div 4096) mod 64,
                0x80 + (c div 64) mod 64, 0x80 + c mod 64]
      else Inl (UnicodeEncodeError (ustr ''not a code point'')))"

fun utf8_encode :: "pystr \<Rightarrow> error + pybytes" where
  "utf8_encode [] = Inr []"
| "utf8_encode (c # s) =
     (case utf8_char c of
        Inl err \<Rightarrow> Inl err
      | Inr bs \<Rightarrow> emit bs (utf8_encode s))"

text \<open>The value of a hexadecimal digit, and of a run of them.\<close>

definition hex_digit :: "nat \<Rightarrow> nat option" where
  "hex_digit c =
     (if 48 \<le> c \<and> c \<le> 57 then Some (c - 48)
      else if 97 \<le> c \<and> c \<le> 102 then Some (c - 87)
      else if 65 \<le> c \<and> c \<le> 70 then Some (c - 55)
      else None)"

fun hex_number :: "nat \<Rightarrow> pybytes \<Rightarrow> nat option" where
  "hex_number acc [] = Some acc"
| "hex_number acc (c # s) =
     (case hex_digit c of
        None \<Rightarrow> None
      | Some d \<Rightarrow> hex_number (acc * 16 + d) s)"

text \<open>Up to \<open>k\<close> further octal digits of an octal escape: the value and the rest.\<close>

fun octal_more :: "nat \<Rightarrow> nat \<Rightarrow> pybytes \<Rightarrow> nat \<times> pybytes" where
  "octal_more 0 acc s = (acc, s)"
| "octal_more (Suc k) acc [] = (acc, [])"
| "octal_more (Suc k) acc (d # s) =
     (if 48 \<le> d \<and> d \<le> 55 then octal_more k (acc * 8 + (d - 48)) s else (acc, d # s))"

lemma octal_more_length: "length (snd (octal_more k acc s)) \<le> length s"
  by (induction k acc s rule: octal_more.induct) auto

text \<open>The escapes of one letter, and the number of digits of the hexadecimal ones.\<close>

definition simple_escape :: "nat \<Rightarrow> nat option" where
  "simple_escape e =
     (if e = 92 then Some 92 else if e = 39 then Some 39 else if e = 34 then Some 34
      else if e = 98 then Some 8 else if e = 102 then Some 12 else if e = 116 then Some 9
      else if e = 110 then Some 10 else if e = 114 then Some 13 else if e = 118 then Some 11
      else if e = 97 then Some 7 else None)"

definition hex_count :: "nat \<Rightarrow> nat" where
  "hex_count e = (if e = 120 then 2 else if e = 117 then 4 else 8)"

definition truncated :: "nat \<Rightarrow> pystr" where
  "truncated e =
     ustr ''truncated '' @ [92] @
       (if e = 120 then ustr ''xXX'' else if e = 117 then ustr ''uXXXX'' else ustr ''UXXXXXXXX'')
       @ ustr '' escape''"

text \<open>
  \<open>b.decode("unicode_escape")\<close> with the default error handler: a byte that is not a
  backslash is the code point of the same number (Latin-1), an escape is replaced by what
  it denotes, an unknown escape is kept with its backslash, and a malformed escape
  raises.
\<close>

function unicode_escape :: "env \<Rightarrow> pybytes \<Rightarrow> error + pystr" where
  "unicode_escape E [] = Inr []"
| "unicode_escape E (c # s) =
     (if c \<noteq> 92 then emit [c] (unicode_escape E s)
      else
        (case s of
           [] \<Rightarrow> Inl (UnicodeDecodeError ([92] @ ustr '' at end of string''))
         | e # s' \<Rightarrow>
             if e = 10 then unicode_escape E s'
             else if simple_escape e \<noteq> None
             then emit [the (simple_escape e)] (unicode_escape E s')
             else if 48 \<le> e \<and> e \<le> 55
             then emit [fst (octal_more 2 (e - 48) s')]
                    (unicode_escape E (snd (octal_more 2 (e - 48) s')))
             else if e = 120 \<or> e = 117 \<or> e = 85 then
               (if length s' < hex_count e then Inl (UnicodeDecodeError (truncated e))
                else
                  (case hex_number 0 (take (hex_count e) s') of
                     None \<Rightarrow> Inl (UnicodeDecodeError (truncated e))
                   | Some v \<Rightarrow>
                       if v > 0x10FFFF
                       then Inl (UnicodeDecodeError (ustr ''illegal Unicode character''))
                       else emit [v] (unicode_escape E (drop (hex_count e) s'))))
             else if e = 78 then
               (case s' of
                  [] \<Rightarrow> Inl (UnicodeDecodeError
                          (ustr ''malformed '' @ [92] @ ustr ''N character escape''))
                | b # s'' \<Rightarrow>
                    if b \<noteq> 123 \<or> dropWhile (\<lambda>x. x \<noteq> 125) s'' = []
                       \<or> takeWhile (\<lambda>x. x \<noteq> 125) s'' = []
                    then Inl (UnicodeDecodeError
                           (ustr ''malformed '' @ [92] @ ustr ''N character escape''))
                    else
                      (case char_by_name E (takeWhile (\<lambda>x. x \<noteq> 125) s'') of
                         None \<Rightarrow> Inl (UnicodeDecodeError
                                   (ustr ''unknown Unicode character name''))
                       | Some v \<Rightarrow>
                           if v > 0x10FFFF
                           then Inl (UnicodeDecodeError
                                  (ustr ''unknown Unicode character name''))
                           else emit [v]
                                  (unicode_escape E (tl (dropWhile (\<lambda>x. x \<noteq> 125) s'')))))
             else emit [92, e] (unicode_escape E s')))"
  by pat_completeness auto
termination
proof (relation "measure (\<lambda>(E, s). length s)", goal_cases)
  case (5 E c s e s')
  have "length (snd (octal_more 2 (e - 48) s')) \<le> length s'"
    by (rule octal_more_length)
  with 5 show ?case by simp
next
  case (7 E c s e s' b s'' v)
  have "length (dropWhile (\<lambda>x. x \<noteq> 125) s'') \<le> length s''"
    by (rule length_dropWhile_le)
  with 7 show ?case by (cases "dropWhile (\<lambda>x. x \<noteq> 125) s''") auto
qed auto

text \<open>Line 7 of \<open>save_json.py\<close>: \<open>bytes(sys.argv[1], "utf-8").decode("unicode_escape")\<close>.\<close>

definition decode_format :: "env \<Rightarrow> pystr \<Rightarrow> error + pystr" where
  "decode_format E arg =
     (case utf8_encode arg of
        Inl err \<Rightarrow> Inl err
      | Inr bs \<Rightarrow> unicode_escape E bs)"

section \<open>\<open>save_json.py\<close>\<close>

text \<open>
  Lines 10 to 14: \<open>content\<close> stays \<open>None\<close> unless there is a fourth argument, the name of
  a file that is then read whole.
\<close>

definition read_content :: "env \<Rightarrow> pystr list \<Rightarrow> (error + pystr option) \<times> event list" where
  "read_content E argv =
     (if length argv \<ge> 5
      then (case file_read E (argv ! 4) of
              Inl err \<Rightarrow> (Inl err, [FileRead (argv ! 4)])
            | Inr c \<Rightarrow> (Inr (Some c), [FileRead (argv ! 4)]))
      else (Inr None, []))"

text \<open>Lines 18 to 21: \<open>if content:\<close> holds for a string that is not empty.\<close>

definition page_text :: "env \<Rightarrow> pystr \<Rightarrow> pystr option \<Rightarrow> error + pystr" where
  "page_text E format_string content =
     (case content of
        None \<Rightarrow> Inr format_string
      | Some c \<Rightarrow> if c \<noteq> [] then py_format E format_string [c] else Inr format_string)"

text \<open>The script, from its argument vector (\<open>sys.argv\<close>, the script's name first).\<close>

definition save_json :: "env \<Rightarrow> pystr list \<Rightarrow> outcome" where
  "save_json E argv =
     (if length argv < 4
      then (Some (Exception (ustr
        ''provide format string and title and edit summary (and optionally filename)'')), [])
      else
        (case decode_format E (argv ! 1) of
           Inl err \<Rightarrow> (Some err, [])
         | Inr format_string \<Rightarrow>
             (case read_content E argv of
                (Inl err, tr) \<Rightarrow> (Some err, tr)
              | (Inr content, tr) \<Rightarrow>
                  (case site_connect E (ustr ''en'') of
                     Some err \<Rightarrow> (Some err, tr @ [SiteConnect (ustr ''en'')])
                   | None \<Rightarrow>
                       (case page_text E format_string content of
                          Inl err \<Rightarrow>
                            (Some err, tr @ [SiteConnect (ustr ''en''), PageHandle (argv ! 2)])
                        | Inr txt \<Rightarrow>
                            (page_save E (argv ! 2) txt (argv ! 3) False,
                             tr @ [SiteConnect (ustr ''en''), PageHandle (argv ! 2),
                                   PageSave (argv ! 2) txt (argv ! 3) False]))))))"

section \<open>\<open>update_data_page.py\<close>\<close>

definition lit :: "pystr \<Rightarrow> re_item list" where
  "lit w = map (\<lambda>c. One (Lit c)) w"

text \<open>The pattern of line 9, \<open>\d{4}-\d{2}-\d{2}\<close>.\<close>

definition date_re :: "env \<Rightarrow> re_item list" where
  "date_re E =
     [Times (Category (is_decimal E)) 4, One (Lit 45),
      Times (Category (is_decimal E)) 2, One (Lit 45),
      Times (Category (is_decimal E)) 2]"

definition date_ok :: "env \<Rightarrow> pystr \<Rightarrow> bool" where
  "date_ok E date = (re_fullmatch (date_re E) date \<noteq> None)"

text \<open>
  The pattern of line 16, \<open>(<!-- (\{\{subst:.+?\}\}) -->).*$\<close>, compiled with
  \<open>re.DOTALL\<close>.
\<close>

definition marker_tail :: "re_item list" where
  "marker_tail =
     lit (ustr ''}}'') @ GroupClose 2 # lit (ustr '' -->'')
       @ [GroupClose 1, GreedyStar (Dot True), AtEnd]"

definition marker_re :: "re_item list" where
  "marker_re =
     GroupOpen 1 # lit (ustr ''<!-- '') @ GroupOpen 2 # lit (ustr ''{{subst:'')
       @ LazyPlus (Dot True) # marker_tail"

text \<open>
  The replacement function of line 17. \<open>None + "\n"\<close> and \<open>None.replace\<close> would raise,
  had a group taken no part in the match.
\<close>

definition stamp :: "pystr \<Rightarrow> pystr \<Rightarrow> rmatch \<Rightarrow> error + pystr" where
  "stamp text date mt =
     (case group text mt 1 of
        None \<Rightarrow> Inl (TypeError (ustr ''unsupported operand type(s) for +''))
      | Some g1 \<Rightarrow>
          (case group text mt 2 of
             None \<Rightarrow> Inl (AttributeError (ustr ''NoneType object has no attribute replace''))
           | Some g2 \<Rightarrow> Inr (g1 @ [10] @ str_replace g2 (ustr ''...'') date)))"

text \<open>Lines 15 to 19: the new text of the page.\<close>

definition update_text :: "pystr \<Rightarrow> pystr \<Rightarrow> error + pystr" where
  "update_text text date = re_sub marker_re (stamp text date) text"

definition date_message :: "env \<Rightarrow> pystr \<Rightarrow> error" where
  "date_message E date =
     (case py_format E (ustr ''Date '' @ [39] @ ustr ''{}'' @ [39]
             @ ustr '' should be in yyyy-mm-dd format'') [date] of
        Inl err \<Rightarrow> err
      | Inr msg \<Rightarrow> Exception msg)"

definition update_data_page :: "env \<Rightarrow> pystr list \<Rightarrow> outcome" where
  "update_data_page E argv =
     (if length argv < 4
      then (Some (Exception (ustr ''provide title and date of dump and edit summary'')), [])
      else if \<not> date_ok E (argv ! 2)
      then (Some (date_message E (argv ! 2)), [])
      else
        (case site_connect E (ustr ''en'') of
           Some err \<Rightarrow> (Some err, [SiteConnect (ustr ''en'')])
         | None \<Rightarrow>
             (case page_load E (argv ! 1) of
                Inl err \<Rightarrow>
                  (Some err, [SiteConnect (ustr ''en''), PageHandle (argv ! 1),
                              PageLoad (argv ! 1)])
              | Inr old \<Rightarrow>
                  (case update_text old (argv ! 2) of
                     Inl err \<Rightarrow>
                       (Some err, [SiteConnect (ustr ''en''), PageHandle (argv ! 1),
                                   PageLoad (argv ! 1)])
                   | Inr new \<Rightarrow>
                       (page_save E (argv ! 1) new (argv ! 3) False,
                        [SiteConnect (ustr ''en''), PageHandle (argv ! 1), PageLoad (argv ! 1),
                         PageSave (argv ! 1) new (argv ! 3) False])))))"

section \<open>An environment for the examples\<close>

text \<open>
  An environment for the examples: an interpreter with no digits and no character names
  beyond ASCII, in which a string has no attribute and takes no index, conversion or
  format specification; two files; and a wiki whose page holds a marker comment and
  accepts every save.
\<close>

definition demo_env :: env where
  "demo_env =
     \<lparr>decimal_value = (\<lambda>c. None),
      char_by_name = (\<lambda>n. None),
      field_lookup = (\<lambda>v look. Inl (AttributeError look)),
      builtin_conv = (\<lambda>cv obj. Inl (TypeError (ustr ''no conversion''))),
      builtin_format = (\<lambda>obj spec. Inl (ValueError (ustr ''Invalid format specifier''))),
      file_read = (\<lambda>f. if f = ustr ''empty.json'' then Inr []
                         else if f = ustr ''data.json'' then Inr (ustr ''[1, 2]'')
                         else Inl (OSError (ustr ''No such file or directory''))),
      site_connect = (\<lambda>s. None),
      page_load = (\<lambda>t. Inr (ustr ''A<!-- {{subst:X...Y}} -->trailing junk'')),
      page_save = (\<lambda>t x s m. None)\<rparr>"

section \<open>How the matcher runs the marker pattern\<close>

lemma prefix_append_drop:
  "prefix (u @ v) s \<longleftrightarrow> prefix u s \<and> prefix v (drop (length u) s)"
proof (induction u arbitrary: s)
  case Nil
  then show ?case by simp
next
  case (Cons x u)
  then show ?case by (cases s) auto
qed

text \<open>A run of literals succeeds exactly on a text that starts with them.\<close>

lemma lit_run:
  "re_run a (lit w @ r) s p m =
     (if prefix w s then re_run a r (drop (length w) s) (p + length w) m else None)"
proof (induction w arbitrary: s p)
  case Nil
  then show ?case by (simp add: lit_def)
next
  case (Cons x w)
  have step: "lit (x # w) @ r = One (Lit x) # (lit w @ r)" by (simp add: lit_def)
  show ?case
  proof (cases s)
    case Nil
    then show ?thesis by (simp add: step)
  next
    case (Cons y ys)
    then show ?thesis using Cons.IH[of ys "Suc p"] by (simp add: step)
  qed
qed

text \<open>The greedy \<open>.*\<close> under \<open>DOTALL\<close>, followed by \<open>$\<close>, takes all that is left.\<close>

lemma star_end_run:
  "re_run Anywhere [GreedyStar (Dot True), AtEnd] s p m = Some (p + length s, m)"
  by (induction s arbitrary: p) simp_all

lemma marker_tail_run:
  "re_run Anywhere marker_tail s p m =
     (if prefix (ustr ''}} -->'') s
      then Some (p + length s,
                 m(5 \<mapsto> p + length (ustr ''}}''), 3 \<mapsto> p + length (ustr ''}} -->'')))
      else None)"
proof (cases "prefix (ustr ''}} -->'') s")
  case True
  then obtain rest where s: "s = ustr ''}} -->'' @ rest"
    by (auto simp: prefix_def)
  show ?thesis
    by (simp add: marker_tail_def lit_run s star_end_run)
next
  case False
  then show ?thesis
    using prefix_append_drop[of "ustr ''}}''" "ustr '' -->''" s]
    by (auto simp add: marker_tail_def lit_run)
qed

text \<open>
  The lazy \<open>.+?\<close> before the tail: the match, when there is one, consumes a non-empty
  body and the closing \<open>}} -->\<close>, and runs to the end of the text.
\<close>

lemma lazy_success:
  "re_run Anywhere (LazyPlus (Dot True) # marker_tail) s p m = Some (e, mk) \<Longrightarrow>
     \<exists>body rest. body \<noteq> [] \<and> s = body @ ustr ''}} -->'' @ rest \<and> e = p + length s \<and>
       mk = m(5 \<mapsto> p + length body + length (ustr ''}}''),
              3 \<mapsto> p + length body + length (ustr ''}} -->''))"
proof (induction s arbitrary: p)
  case Nil
  then show ?case by simp
next
  case (Cons x xs)
  show ?case
  proof (cases "prefix (ustr ''}} -->'') xs")
    case True
    then obtain rest where xs: "xs = ustr ''}} -->'' @ rest"
      by (auto simp: prefix_def)
    from Cons.prems True have "e = Suc p + length xs"
      and "mk = m(5 \<mapsto> Suc p + length (ustr ''}}''), 3 \<mapsto> Suc p + length (ustr ''}} -->''))"
      by (simp_all add: marker_tail_run)
    then have "[x] \<noteq> [] \<and> x # xs = [x] @ ustr ''}} -->'' @ rest \<and> e = p + length (x # xs) \<and>
       mk = m(5 \<mapsto> p + length [x] + length (ustr ''}}''),
              3 \<mapsto> p + length [x] + length (ustr ''}} -->''))"
      using xs by simp
    then show ?thesis by blast
  next
    case False
    with Cons.prems
    have "re_run Anywhere (LazyPlus (Dot True) # marker_tail) xs (Suc p) m = Some (e, mk)"
      by (simp add: marker_tail_run)
    from Cons.IH[OF this] obtain body rest where
      b: "body \<noteq> []" "xs = body @ ustr ''}} -->'' @ rest" "e = Suc p + length xs"
         "mk = m(5 \<mapsto> Suc p + length body + length (ustr ''}}''),
                 3 \<mapsto> Suc p + length body + length (ustr ''}} -->''))"
      by blast
    then have "x # body \<noteq> [] \<and> x # xs = (x # body) @ ustr ''}} -->'' @ rest \<and>
       e = p + length (x # xs) \<and>
       mk = m(5 \<mapsto> p + length (x # body) + length (ustr ''}}''),
              3 \<mapsto> p + length (x # body) + length (ustr ''}} -->''))"
      by simp
    then show ?thesis by blast
  qed
qed

text \<open>
  Conversely, the lazy repeat stops at the first \<open>}} -->\<close> that follows at least one
  character.
\<close>

lemma lazy_found:
  assumes "body \<noteq> []"
    and "\<And>j. 0 < j \<Longrightarrow> j < length body \<Longrightarrow>
           \<not> prefix (ustr ''}} -->'') (drop j (body @ ustr ''}} -->'' @ rest))"
  shows "re_run Anywhere (LazyPlus (Dot True) # marker_tail) (body @ ustr ''}} -->'' @ rest) p m =
     Some (p + length (body @ ustr ''}} -->'' @ rest),
           m(5 \<mapsto> p + length body + length (ustr ''}}''),
             3 \<mapsto> p + length body + length (ustr ''}} -->'')))"
  using assms
proof (induction body arbitrary: p)
  case Nil
  then show ?case by simp
next
  case (Cons x body)
  show ?case
  proof (cases "body = []")
    case True
    then show ?thesis by (auto simp add: marker_tail_run fun_upd_def)
  next
    case False
    have "\<not> prefix (ustr ''}} -->'') (drop 1 ((x # body) @ ustr ''}} -->'' @ rest))"
      using Cons.prems(2)[of 1] False by simp
    then have nf: "\<not> prefix (ustr ''}} -->'') (body @ ustr ''}} -->'' @ rest)"
      by simp
    have later: "\<And>j. 0 < j \<Longrightarrow> j < length body \<Longrightarrow>
           \<not> prefix (ustr ''}} -->'') (drop j (body @ ustr ''}} -->'' @ rest))"
      using Cons.prems(2)[of "Suc _"] by simp
    from Cons.IH[OF False later, of "Suc p"] nf show ?thesis
      by (auto simp add: marker_tail_run fun_upd_def)
  qed
qed

text \<open>The whole pattern: the opening literals, then the lazy repeat and the tail.\<close>

lemma marker_run:
  "re_run a marker_re s p m =
     (if prefix (ustr ''<!-- {{subst:'') s
      then re_run a (LazyPlus (Dot True) # marker_tail)
             (drop (length (ustr ''<!-- {{subst:'')) s) (p + length (ustr ''<!-- {{subst:''))
             (m(2 \<mapsto> p, 4 \<mapsto> p + length (ustr ''<!-- '')))
      else None)"
proof (cases "prefix (ustr ''<!-- {{subst:'') s")
  case True
  then obtain rest where s: "s = ustr ''<!-- {{subst:'' @ rest"
    by (auto simp: prefix_def)
  show ?thesis
    by (simp add: marker_re_def lit_run s)
next
  case False
  then show ?thesis
    using prefix_append_drop[of "ustr ''<!-- ''" "ustr ''{{subst:''" s]
    by (auto simp add: marker_re_def lit_run)
qed

lemma marker_success:
  assumes "re_run Anywhere marker_re s p Map.empty = Some (e, mk)"
  shows "\<exists>body rest. body \<noteq> [] \<and>
           s = ustr ''<!-- {{subst:'' @ body @ ustr ''}} -->'' @ rest \<and> e = p + length s \<and>
           mk 2 = Some p \<and>
           mk 3 = Some (p + length (ustr ''<!-- {{subst:'' @ body @ ustr ''}} -->'')) \<and>
           mk 4 = Some (p + length (ustr ''<!-- '')) \<and>
           mk 5 = Some (p + length (ustr ''<!-- {{subst:'' @ body @ ustr ''}}''))"
proof -
  from assms have pre: "prefix (ustr ''<!-- {{subst:'') s"
    by (auto simp: marker_run split: if_splits)
  then obtain t where s: "s = ustr ''<!-- {{subst:'' @ t"
    by (auto simp: prefix_def)
  from assms pre have "re_run Anywhere (LazyPlus (Dot True) # marker_tail)
      (drop (length (ustr ''<!-- {{subst:'')) s) (p + length (ustr ''<!-- {{subst:''))
      (Map.empty(2 \<mapsto> p, 4 \<mapsto> p + length (ustr ''<!-- ''))) = Some (e, mk)"
    by (simp only: marker_run if_True)
  then have run: "re_run Anywhere (LazyPlus (Dot True) # marker_tail) t
      (p + length (ustr ''<!-- {{subst:''))
      (Map.empty(2 \<mapsto> p, 4 \<mapsto> p + length (ustr ''<!-- ''))) = Some (e, mk)"
    by (simp add: s)
  from lazy_success[OF run] obtain body rest where
    b: "body \<noteq> []" "t = body @ ustr ''}} -->'' @ rest"
       "e = p + length (ustr ''<!-- {{subst:'') + length t"
       "mk = (Map.empty(2 \<mapsto> p, 4 \<mapsto> p + length (ustr ''<!-- '')))
               (5 \<mapsto> p + length (ustr ''<!-- {{subst:'') + length body + length (ustr ''}}''),
                3 \<mapsto> p + length (ustr ''<!-- {{subst:'') + length body
                       + length (ustr ''}} -->''))"
    by blast
  have "body \<noteq> [] \<and>
           s = ustr ''<!-- {{subst:'' @ body @ ustr ''}} -->'' @ rest \<and> e = p + length s \<and>
           mk 2 = Some p \<and>
           mk 3 = Some (p + length (ustr ''<!-- {{subst:'' @ body @ ustr ''}} -->'')) \<and>
           mk 4 = Some (p + length (ustr ''<!-- '')) \<and>
           mk 5 = Some (p + length (ustr ''<!-- {{subst:'' @ body @ ustr ''}}''))"
    using b s by simp
  then show ?thesis by blast
qed

lemma marker_found:
  assumes "body \<noteq> []"
    and "\<And>j. 0 < j \<Longrightarrow> j < length body \<Longrightarrow>
           \<not> prefix (ustr ''}} -->'') (drop j (body @ ustr ''}} -->'' @ rest))"
  shows "\<exists>mk. re_run Anywhere marker_re
             (ustr ''<!-- {{subst:'' @ body @ ustr ''}} -->'' @ rest) p Map.empty =
           Some (p + length (ustr ''<!-- {{subst:'' @ body @ ustr ''}} -->'' @ rest), mk) \<and>
           mk 2 = Some p \<and>
           mk 3 = Some (p + length (ustr ''<!-- {{subst:'' @ body @ ustr ''}} -->'')) \<and>
           mk 4 = Some (p + length (ustr ''<!-- '')) \<and>
           mk 5 = Some (p + length (ustr ''<!-- {{subst:'' @ body @ ustr ''}}''))"
  using lazy_found[OF assms, of "p + length (ustr ''<!-- {{subst:'')"
      "Map.empty(2 \<mapsto> p, 4 \<mapsto> p + length (ustr ''<!-- ''))"]
  by (simp add: marker_run)

lemma marker_nomatch:
  "\<not> prefix (ustr ''<!-- {{subst:'') s \<Longrightarrow> re_run a marker_re s p m = None"
  by (simp add: marker_run)

section \<open>How \<open>search\<close> and \<open>sub\<close> run\<close>

lemma re_scan_success:
  "re_scan False re s p = Some mt \<Longrightarrow>
     \<exists>k. k \<le> length s \<and> m_start mt = p + k \<and>
       re_run Anywhere re (drop k s) (p + k) Map.empty = Some (m_end mt, m_marks mt) \<and>
       (\<forall>j<k. re_run Anywhere re (drop j s) (p + j) Map.empty = None)"
proof (induction s arbitrary: p)
  case Nil
  then have "re_run Anywhere re (drop 0 []) (p + 0) Map.empty = Some (m_end mt, m_marks mt)
      \<and> m_start mt = p + 0"
    by (auto split: option.splits)
  then show ?case by auto
next
  case (Cons x xs)
  show ?case
  proof (cases "re_run Anywhere re (x # xs) p Map.empty")
    case None
    with Cons.prems have "re_scan False re xs (Suc p) = Some mt" by simp
    from Cons.IH[OF this] obtain k where
      k: "k \<le> length xs" "m_start mt = Suc p + k"
         "re_run Anywhere re (drop k xs) (Suc p + k) Map.empty = Some (m_end mt, m_marks mt)"
         "\<forall>j<k. re_run Anywhere re (drop j xs) (Suc p + j) Map.empty = None"
      by blast
    have "\<forall>j<Suc k. re_run Anywhere re (drop j (x # xs)) (p + j) Map.empty = None"
    proof (intro allI impI)
      fix j assume "j < Suc k"
      then show "re_run Anywhere re (drop j (x # xs)) (p + j) Map.empty = None"
        using None k(4) by (cases j) auto
    qed
    with k have "Suc k \<le> length (x # xs) \<and> m_start mt = p + Suc k \<and>
       re_run Anywhere re (drop (Suc k) (x # xs)) (p + Suc k) Map.empty
         = Some (m_end mt, m_marks mt) \<and>
       (\<forall>j<Suc k. re_run Anywhere re (drop j (x # xs)) (p + j) Map.empty = None)"
      by simp
    then show ?thesis by blast
  next
    case (Some res)
    with Cons.prems have "0 \<le> length (x # xs) \<and> m_start mt = p + 0 \<and>
       re_run Anywhere re (drop 0 (x # xs)) (p + 0) Map.empty = Some (m_end mt, m_marks mt) \<and>
       (\<forall>j<(0::nat). re_run Anywhere re (drop j (x # xs)) (p + j) Map.empty = None)"
      by (cases res) auto
    then show ?thesis by blast
  qed
qed

lemma re_scan_found:
  assumes "k \<le> length s"
    and "\<And>j. j < k \<Longrightarrow> re_run Anywhere re (drop j s) (p + j) Map.empty = None"
    and "re_run Anywhere re (drop k s) (p + k) Map.empty = Some (e, mk)"
  shows "re_scan False re s p = Some \<lparr>m_start = p + k, m_end = e, m_marks = mk\<rparr>"
  using assms
proof (induction k arbitrary: s p)
  case 0
  then show ?case by (cases s) auto
next
  case (Suc k)
  then obtain x xs where s: "s = x # xs" by (cases s) auto
  have none: "re_run Anywhere re (x # xs) p Map.empty = None"
    using Suc.prems(2)[of 0] s by simp
  have "re_scan False re xs (Suc p) = Some \<lparr>m_start = Suc p + k, m_end = e, m_marks = mk\<rparr>"
  proof (rule Suc.IH)
    show "k \<le> length xs" using Suc.prems(1) s by simp
    show "re_run Anywhere re (drop j xs) (Suc p + j) Map.empty = None" if "j < k" for j
      using Suc.prems(2)[of "Suc j"] that s by simp
    show "re_run Anywhere re (drop k xs) (Suc p + k) Map.empty = Some (e, mk)"
      using Suc.prems(3) s by simp
  qed
  with none s show ?case by simp
qed

lemma re_scan_none:
  assumes "\<And>j. j \<le> length s \<Longrightarrow> re_run Anywhere re (drop j s) (p + j) Map.empty = None"
  shows "re_scan False re s p = None"
  using assms
proof (induction s arbitrary: p)
  case Nil
  then show ?case using Nil[of 0] by simp
next
  case (Cons x xs)
  have "re_run Anywhere re (x # xs) p Map.empty = None"
    using Cons.prems[of 0] by simp
  moreover have "re_scan False re xs (Suc p) = None"
  proof (rule Cons.IH)
    show "re_run Anywhere re (drop j xs) (Suc p + j) Map.empty = None" if "j \<le> length xs" for j
      using Cons.prems[of "Suc j"] that by simp
  qed
  ultimately show ?case by simp
qed

text \<open>\<open>sub\<close> with no match, and with one match that reaches the end of the text.\<close>

lemma re_sub_none:
  "re_search re text = None \<Longrightarrow> re_sub re repl text = Inr text"
  by (simp add: re_sub_def re_search_def re_sub_from.simps)

lemma re_sub_single:
  assumes "re_search re text = Some mt"
    and "m_end mt = length text"
    and "repl mt = Inr new"
    and "\<And>adv. re_scan adv re [] (length text) = None"
  shows "re_sub re repl text = Inr (take (m_start mt) text @ new)"
proof -
  have d: "drop (length text) text = []" by simp
  have rest: "re_sub_from re repl text (length text) adv = Inr []" for adv
    by (subst re_sub_from.simps) (simp only: d assms(4) option.simps)
  show ?thesis
    unfolding re_sub_def
    by (subst re_sub_from.simps)
      (use assms(1-3) in \<open>simp add: re_search_def rest slice_def\<close>)
qed

section \<open>The rewrite of the timestamp\<close>

lemma slice_mid: "slice (length a) (length a + length b) (a @ b @ c) = b"
  by (simp add: slice_def)

text \<open>The two groups of a match of the marker pattern that starts after \<open>pre\<close>.\<close>

lemma marker_groups:
  assumes "text = pre @ ustr ''<!-- {{subst:'' @ body @ ustr ''}} -->'' @ rest"
    and "m_marks mt 2 = Some (length pre)"
    and "m_marks mt 3 =
           Some (length pre + length (ustr ''<!-- {{subst:'' @ body @ ustr ''}} -->''))"
    and "m_marks mt 4 = Some (length pre + length (ustr ''<!-- ''))"
    and "m_marks mt 5 =
           Some (length pre + length (ustr ''<!-- {{subst:'' @ body @ ustr ''}}''))"
  shows "group text mt 1 = Some (ustr ''<!-- {{subst:'' @ body @ ustr ''}} -->'')"
    and "group text mt 2 = Some (ustr ''{{subst:'' @ body @ ustr ''}}'')"
proof -
  have "slice (length pre)
          (length pre + length (ustr ''<!-- {{subst:'' @ body @ ustr ''}} -->'')) text
        = ustr ''<!-- {{subst:'' @ body @ ustr ''}} -->''"
    using slice_mid[of pre "ustr ''<!-- {{subst:'' @ body @ ustr ''}} -->''" rest]
    by (simp add: assms(1))
  then show "group text mt 1 = Some (ustr ''<!-- {{subst:'' @ body @ ustr ''}} -->'')"
    by (simp add: group_def assms(2,3))
  have "slice (length (pre @ ustr ''<!-- ''))
          (length (pre @ ustr ''<!-- '') + length (ustr ''{{subst:'' @ body @ ustr ''}}''))
          ((pre @ ustr ''<!-- '') @ (ustr ''{{subst:'' @ body @ ustr ''}}'')
             @ (ustr '' -->'' @ rest))
        = ustr ''{{subst:'' @ body @ ustr ''}}''"
    by (rule slice_mid)
  then have "slice (length pre + length (ustr ''<!-- ''))
          (length pre + length (ustr ''<!-- {{subst:'' @ body @ ustr ''}}'')) text
        = ustr ''{{subst:'' @ body @ ustr ''}}''"
    by (simp add: assms(1))
  then show "group text mt 2 = Some (ustr ''{{subst:'' @ body @ ustr ''}}'')"
    by (simp add: group_def assms(4,5))
qed

lemma marker_scan_end: "re_scan adv marker_re [] n = None"
  by (simp add: marker_nomatch)

text \<open>
  What the substitution does with a match of the marker pattern: the text before the
  match stays, the comment stays, and a new line with the stamped expression replaces all
  that followed.
\<close>

lemma update_text_at:
  assumes "re_search marker_re text = Some mt"
    and "text = pre @ ustr ''<!-- {{subst:'' @ body @ ustr ''}} -->'' @ rest"
    and "m_start mt = length pre"
    and "m_end mt = length text"
    and "m_marks mt 2 = Some (length pre)"
    and "m_marks mt 3 =
           Some (length pre + length (ustr ''<!-- {{subst:'' @ body @ ustr ''}} -->''))"
    and "m_marks mt 4 = Some (length pre + length (ustr ''<!-- ''))"
    and "m_marks mt 5 =
           Some (length pre + length (ustr ''<!-- {{subst:'' @ body @ ustr ''}}''))"
  shows "update_text text date =
     Inr (pre @ ustr ''<!-- {{subst:'' @ body @ ustr ''}} -->'' @ [10]
          @ str_replace (ustr ''{{subst:'' @ body @ ustr ''}}'') (ustr ''...'') date)"
proof -
  note g = marker_groups[OF assms(2) assms(5-8)]
  have st: "stamp text date mt =
      Inr (ustr ''<!-- {{subst:'' @ body @ ustr ''}} -->'' @ [10]
           @ str_replace (ustr ''{{subst:'' @ body @ ustr ''}}'') (ustr ''...'') date)"
    by (simp only: stamp_def g option.simps append_assoc)
  have tk: "take (m_start mt) text = pre"
    by (simp add: assms(2,3))
  show ?thesis
    unfolding update_text_def
    by (simp only: re_sub_single[of marker_re "text" mt "stamp text date", OF assms(1) assms(4) st marker_scan_end] tk append_assoc)
qed

lemma search_marker_success:
  assumes "re_search marker_re text = Some mt"
  shows "\<exists>pre body rest. body \<noteq> [] \<and>
           text = pre @ ustr ''<!-- {{subst:'' @ body @ ustr ''}} -->'' @ rest \<and>
           m_start mt = length pre \<and> m_end mt = length text \<and>
           m_marks mt 2 = Some (length pre) \<and>
           m_marks mt 3 =
             Some (length pre + length (ustr ''<!-- {{subst:'' @ body @ ustr ''}} -->'')) \<and>
           m_marks mt 4 = Some (length pre + length (ustr ''<!-- '')) \<and>
           m_marks mt 5 =
             Some (length pre + length (ustr ''<!-- {{subst:'' @ body @ ustr ''}}''))"
proof -
  from assms have "re_scan False marker_re text 0 = Some mt"
    by (simp add: re_search_def)
  from re_scan_success[OF this] obtain k where
    k: "k \<le> length text" "m_start mt = k"
       "re_run Anywhere marker_re (drop k text) k Map.empty = Some (m_end mt, m_marks mt)"
    by auto
  from marker_success[OF k(3)] obtain body rest where
    b: "body \<noteq> []" "drop k text = ustr ''<!-- {{subst:'' @ body @ ustr ''}} -->'' @ rest"
       "m_end mt = k + length (drop k text)"
       "m_marks mt 2 = Some k"
       "m_marks mt 3 = Some (k + length (ustr ''<!-- {{subst:'' @ body @ ustr ''}} -->''))"
       "m_marks mt 4 = Some (k + length (ustr ''<!-- ''))"
       "m_marks mt 5 = Some (k + length (ustr ''<!-- {{subst:'' @ body @ ustr ''}}''))"
    by blast
  define pre where "pre = take k text"
  have len: "length pre = k" using k(1) by (simp add: pre_def)
  have t: "text = pre @ ustr ''<!-- {{subst:'' @ body @ ustr ''}} -->'' @ rest"
    using append_take_drop_id[of k "text"] by (simp only: pre_def b(2))
  have e: "m_end mt = length text" using b(3) k(1) by simp
  have "body \<noteq> [] \<and>
           text = pre @ ustr ''<!-- {{subst:'' @ body @ ustr ''}} -->'' @ rest \<and>
           m_start mt = length pre \<and> m_end mt = length text \<and>
           m_marks mt 2 = Some (length pre) \<and>
           m_marks mt 3 = Some (length pre
              + length (ustr ''<!-- {{subst:'' @ body @ ustr ''}} -->'')) \<and>
           m_marks mt 4 = Some (length pre + length (ustr ''<!-- '')) \<and>
           m_marks mt 5 = Some (length pre
              + length (ustr ''<!-- {{subst:'' @ body @ ustr ''}}''))"
    unfolding len using b(1) t k(2) e b(4-7) by blast
  then show ?thesis by blast
qed

text \<open>
  C1. Whenever the search finds the marker pattern in the page text, the match runs to
  the end of the text, group 1 is the whole comment \<open><!-- {{subst:body}} -->\<close>, group 2
  the expression \<open>{{subst:body}}\<close> inside it, and the new text is the text before the
  match, then group 1, a newline, and group 2 with every \<open>...\<close> replaced by the date.
\<close>

theorem marker_span_replaced:
  assumes "re_search marker_re text = Some mt"
  shows "\<exists>body. body \<noteq> [] \<and>
           group text mt 1 = Some (ustr ''<!-- {{subst:'' @ body @ ustr ''}} -->'') \<and>
           group text mt 2 = Some (ustr ''{{subst:'' @ body @ ustr ''}}'') \<and>
           m_end mt = length text \<and>
           update_text text date =
             Inr (take (m_start mt) text @ ustr ''<!-- {{subst:'' @ body @ ustr ''}} -->''
                  @ [10]
                  @ str_replace (ustr ''{{subst:'' @ body @ ustr ''}}'') (ustr ''...'') date)"
proof -
  from search_marker_success[OF assms] obtain pre body rest where
    b: "body \<noteq> []"
       "text = pre @ ustr ''<!-- {{subst:'' @ body @ ustr ''}} -->'' @ rest"
       "m_start mt = length pre" "m_end mt = length text"
       "m_marks mt 2 = Some (length pre)"
       "m_marks mt 3 =
          Some (length pre + length (ustr ''<!-- {{subst:'' @ body @ ustr ''}} -->''))"
       "m_marks mt 4 = Some (length pre + length (ustr ''<!-- ''))"
       "m_marks mt 5 =
          Some (length pre + length (ustr ''<!-- {{subst:'' @ body @ ustr ''}}''))"
    by blast
  note g = marker_groups[OF b(2) b(5-8)]
  have tk: "take (m_start mt) text = pre"
    by (simp add: b(2,3))
  have "update_text text date =
     Inr (take (m_start mt) text @ ustr ''<!-- {{subst:'' @ body @ ustr ''}} -->'' @ [10]
          @ str_replace (ustr ''{{subst:'' @ body @ ustr ''}}'') (ustr ''...'') date)"
    unfolding tk by (rule update_text_at[OF assms b(2-8)])
  with b(1) g b(4) show ?thesis by blast
qed

theorem marker_span_replaced_witness:
  "re_search marker_re (ustr ''A<!-- {{subst:X...Y}} -->trailing junk'') \<noteq> None \<and>
   update_text (ustr ''A<!-- {{subst:X...Y}} -->trailing junk'') (ustr ''2024-06-01'') =
     Inr (ustr ''A<!-- {{subst:X...Y}} -->'' @ [10] @ ustr ''{{subst:X2024-06-01Y}}'')"
proof -
  let ?T = "ustr ''A<!-- {{subst:X...Y}} -->trailing junk''"
  have "\<exists>mt. re_search marker_re ?T = Some mt \<and> m_start mt = 1 \<and>
          group ?T mt 2 = Some (ustr ''{{subst:X...Y}}'')"
    by (simp add: re_search_def marker_re_def marker_tail_def lit_def group_def slice_def)
  then obtain mt where mt: "re_search marker_re ?T = Some mt" "m_start mt = 1"
      "group ?T mt 2 = Some (ustr ''{{subst:X...Y}}'')"
    by blast
  from marker_span_replaced[OF mt(1), of "ustr ''2024-06-01''"] obtain body where
    b: "group ?T mt 2 = Some (ustr ''{{subst:'' @ body @ ustr ''}}'')"
       "update_text ?T (ustr ''2024-06-01'') =
             Inr (take (m_start mt) ?T @ ustr ''<!-- {{subst:'' @ body @ ustr ''}} -->''
                  @ [10]
                  @ str_replace (ustr ''{{subst:'' @ body @ ustr ''}}'') (ustr ''...'')
                      (ustr ''2024-06-01''))"
    by blast
  from b(1) mt(3) have "body @ ustr ''}}'' = ustr ''X...Y'' @ ustr ''}}''"
    by simp
  then have body: "body = ustr ''X...Y''"
    by (simp only: append_same_eq)
  show ?thesis
    using mt(1) b(2) unfolding body mt(2) by simp
qed

text \<open>A text in which \<open><!-- {{subst:\<close> occurs nowhere has no match.\<close>

lemma no_opening_no_match:
  assumes "\<And>i. i \<le> length text \<Longrightarrow> \<not> prefix (ustr ''<!-- {{subst:'') (drop i text)"
  shows "re_search marker_re text = None"
  unfolding re_search_def
proof (rule re_scan_none)
  fix j assume "j \<le> length text"
  then show "re_run Anywhere marker_re (drop j text) (0 + j) Map.empty = None"
    using assms by (intro marker_nomatch)
qed

text \<open>
  C5. When the search does not find the marker pattern anywhere in the page text, the
  substitution raises nothing and returns the text as it was.
\<close>

theorem no_marker_noop:
  assumes "re_search marker_re text = None"
  shows "update_text text date = Inr text"
  using assms by (simp add: update_text_def re_sub_none)

theorem no_marker_noop_witness:
  "re_search marker_re (ustr ''== Data ==|no comment here'') = None \<and>
   update_text (ustr ''== Data ==|no comment here'') (ustr ''2024-06-01'') =
     Inr (ustr ''== Data ==|no comment here'')"
proof -
  have h: "re_search marker_re (ustr ''== Data ==|no comment here'') = None"
    by (simp add: re_search_def marker_re_def marker_tail_def lit_def)
  show ?thesis
    using h no_marker_noop[OF h, of "ustr ''2024-06-01''"] by simp
qed

text \<open>
  The first marker comment of a text is the one that is matched: no \<open><!-- {{subst:\<close>
  before it, a body that is not empty, and no earlier \<open>}} -->\<close> to close it.
\<close>

lemma update_text_first_marker:
  assumes "text = pre @ ustr ''<!-- {{subst:'' @ body @ ustr ''}} -->'' @ rest"
    and "\<And>i. i < length pre \<Longrightarrow> \<not> prefix (ustr ''<!-- {{subst:'') (drop i text)"
    and "body \<noteq> []"
    and "\<And>j. 0 < j \<Longrightarrow> j < length body \<Longrightarrow>
           \<not> prefix (ustr ''}} -->'') (drop j (body @ ustr ''}} -->''))"
  shows "update_text text date =
     Inr (pre @ ustr ''<!-- {{subst:'' @ body @ ustr ''}} -->'' @ [10]
          @ str_replace (ustr ''{{subst:'' @ body @ ustr ''}}'') (ustr ''...'') date)"
proof -
  have early: "re_run Anywhere marker_re (drop i text) (0 + i) Map.empty = None"
    if "i < length pre" for i
    using assms(2)[OF that] by (rule marker_nomatch)
  have close: "\<not> prefix (ustr ''}} -->'') (drop j (body @ ustr ''}} -->'' @ rest))"
    if "0 < j" "j < length body" for j
  proof
    assume p: "prefix (ustr ''}} -->'') (drop j (body @ ustr ''}} -->'' @ rest))"
    have d: "drop j (body @ ustr ''}} -->'' @ rest) = (drop j body @ ustr ''}} -->'') @ rest"
      using that(2) by simp
    have "prefix (ustr ''}} -->'') (drop j body @ ustr ''}} -->'')"
    proof (rule prefix_length_prefix)
      show "prefix (ustr ''}} -->'') ((drop j body @ ustr ''}} -->'') @ rest)"
        using p unfolding d .
      show "prefix (drop j body @ ustr ''}} -->'') ((drop j body @ ustr ''}} -->'') @ rest)"
        by simp
      show "length (ustr ''}} -->'') \<le> length (drop j body @ ustr ''}} -->'')"
        by simp
    qed
    moreover have "drop j (body @ ustr ''}} -->'') = drop j body @ ustr ''}} -->''"
      using that(2) by simp
    ultimately show False using assms(4)[OF that] by simp
  qed
  have dr: "drop (length pre) text = ustr ''<!-- {{subst:'' @ body @ ustr ''}} -->'' @ rest"
    by (simp add: assms(1))
  from marker_found[OF assms(3) close, where p = "length pre"] obtain mk where
    mk: "re_run Anywhere marker_re
             (ustr ''<!-- {{subst:'' @ body @ ustr ''}} -->'' @ rest) (length pre) Map.empty =
           Some (length pre + length (ustr ''<!-- {{subst:'' @ body @ ustr ''}} -->'' @ rest), mk)"
        "mk 2 = Some (length pre)"
        "mk 3 = Some (length pre + length (ustr ''<!-- {{subst:'' @ body @ ustr ''}} -->''))"
        "mk 4 = Some (length pre + length (ustr ''<!-- ''))"
        "mk 5 = Some (length pre + length (ustr ''<!-- {{subst:'' @ body @ ustr ''}}''))"
    by blast
  let ?e = "length pre + length (ustr ''<!-- {{subst:'' @ body @ ustr ''}} -->'' @ rest)"
  let ?mt = "\<lparr>m_start = 0 + length pre, m_end = ?e, m_marks = mk\<rparr>"
  have "re_scan False marker_re text 0 = Some ?mt"
  proof (rule re_scan_found)
    show "length pre \<le> length text" by (simp add: assms(1))
    show "re_run Anywhere marker_re (drop j text) (0 + j) Map.empty = None"
      if "j < length pre" for j
      using early[OF that] .
    show "re_run Anywhere marker_re (drop (length pre) text) (0 + length pre) Map.empty
            = Some (?e, mk)"
      unfolding dr using mk(1) by simp
  qed
  then have s: "re_search marker_re text = Some ?mt"
    by (simp add: re_search_def)
  have e: "m_end ?mt = length text" by (simp add: assms(1))
  show ?thesis
    by (rule update_text_at[OF s assms(1) _ e]) (simp_all add: mk)
qed

text \<open>
  C2, as the code has it. The search is from the left and the repeat is lazy, so the
  rewrite is anchored at the first marker comment, not at the last: when the text is
  \<open>pre\<close>, then a comment \<open><!-- {{subst:body}} -->\<close>, then \<open>rest\<close>, where no
  \<open><!-- {{subst:\<close> starts inside \<open>pre\<close> and the comment closes at its first
  \<open>}} -->\<close>, the new text keeps \<open>pre\<close> and that first comment and replaces \<open>rest\<close>,
  with any later marker comment in it, by the stamped expression of the first.
\<close>

theorem first_marker_survives:
  assumes "text = pre @ ustr ''<!-- {{subst:'' @ body @ ustr ''}} -->'' @ rest"
    and "\<And>i. i < length pre \<Longrightarrow> \<not> prefix (ustr ''<!-- {{subst:'') (drop i text)"
    and "body \<noteq> []"
    and "\<And>j. 0 < j \<Longrightarrow> j < length body \<Longrightarrow>
           \<not> prefix (ustr ''}} -->'') (drop j (body @ ustr ''}} -->''))"
  shows "update_text text date =
     Inr (pre @ ustr ''<!-- {{subst:'' @ body @ ustr ''}} -->'' @ [10]
          @ str_replace (ustr ''{{subst:'' @ body @ ustr ''}}'') (ustr ''...'') date)"
  using assms by (rule update_text_first_marker)

theorem first_marker_survives_witness:
  "update_text (ustr ''A<!-- {{subst:X}} -->old<!-- {{subst:Y}} -->older'')
      (ustr ''2024-06-01'') =
     Inr (ustr ''A<!-- {{subst:X}} -->'' @ [10] @ ustr ''{{subst:X}}'')"
proof -
  have "update_text (ustr ''A'' @ ustr ''<!-- {{subst:'' @ ustr ''X'' @ ustr ''}} -->''
          @ ustr ''old<!-- {{subst:Y}} -->older'') (ustr ''2024-06-01'') =
     Inr (ustr ''A'' @ ustr ''<!-- {{subst:'' @ ustr ''X'' @ ustr ''}} -->'' @ [10]
          @ str_replace (ustr ''{{subst:'' @ ustr ''X'' @ ustr ''}}'') (ustr ''...'')
              (ustr ''2024-06-01''))"
    by (rule first_marker_survives[OF refl]) simp_all
  then show ?thesis by simp
qed

text \<open>
  The claim as the specification words it fails on a page with two marker comments: the
  rewrite does not keep the text up to the last comment.
\<close>

theorem last_marker_counterexample:
  "update_text (ustr ''A<!-- {{subst:X}} -->old<!-- {{subst:Y}} -->older'')
      (ustr ''2024-06-01'') \<noteq>
     Inr (ustr ''A<!-- {{subst:X}} -->old<!-- {{subst:Y}} -->'' @ [10] @ ustr ''{{subst:Y}}'')"
proof -
  have "update_text (ustr ''A'' @ ustr ''<!-- {{subst:'' @ ustr ''X'' @ ustr ''}} -->''
          @ ustr ''old<!-- {{subst:Y}} -->older'') (ustr ''2024-06-01'') =
     Inr (ustr ''A'' @ ustr ''<!-- {{subst:'' @ ustr ''X'' @ ustr ''}} -->'' @ [10]
          @ str_replace (ustr ''{{subst:'' @ ustr ''X'' @ ustr ''}}'') (ustr ''...'')
              (ustr ''2024-06-01''))"
    by (rule update_text_first_marker[OF refl]) simp_all
  then show ?thesis by simp
qed

section \<open>The date check\<close>

lemma times_case:
  "re_run a (Times c n # r) s p m =
     (if n = 0 then re_run a r s p m
      else case s of
             [] \<Rightarrow> None
           | x # xs \<Rightarrow> if accepts c x then re_run a (Times c (n - 1) # r) xs (Suc p) m else None)"
  by (cases s) simp_all

lemma one_case:
  "re_run a (One c # r) s p m =
     (case s of
        [] \<Rightarrow> None
      | x # xs \<Rightarrow> if accepts c x then re_run a r xs (Suc p) m else None)"
  by (cases s) simp_all

lemma date_ok_shape:
  "date_ok E d \<longleftrightarrow>
     (\<exists>y1 y2 y3 y4 m1 m2 d1 d2.
        d = [y1, y2, y3, y4, 45, m1, m2, 45, d1, d2] \<and>
        list_all (is_decimal E) [y1, y2, y3, y4, m1, m2, d1, d2])"
proof
  assume "date_ok E d"
  then show "\<exists>y1 y2 y3 y4 m1 m2 d1 d2.
        d = [y1, y2, y3, y4, 45, m1, m2, 45, d1, d2] \<and>
        list_all (is_decimal E) [y1, y2, y3, y4, m1, m2, d1, d2]"
    by (auto simp: date_ok_def re_fullmatch_def date_re_def times_case one_case
        split: list.splits if_splits option.splits)
next
  assume "\<exists>y1 y2 y3 y4 m1 m2 d1 d2.
        d = [y1, y2, y3, y4, 45, m1, m2, 45, d1, d2] \<and>
        list_all (is_decimal E) [y1, y2, y3, y4, m1, m2, d1, d2]"
  then show "date_ok E d"
    by (auto simp: date_ok_def re_fullmatch_def date_re_def)
qed

lemma ascii_digit_decimal: "48 \<le> c \<Longrightarrow> c \<le> 57 \<Longrightarrow> is_decimal E c"
  by (simp add: is_decimal_def to_decimal_def)

text \<open>
  C7. The date check is lexical: it accepts exactly the strings of four decimal digits, a
  hyphen, two digits, a hyphen and two digits, whatever the digits say (a digit is what
  \<open>\d\<close> accepts: \<open>0\<close> to \<open>9\<close> and the other decimal digits of Unicode). The three
  malformed strings of the specification fail, \<open>2024-06-01\<close> and \<open>9999-99-99\<close> pass.
\<close>

theorem date_check_lexical:
  "(date_ok E d \<longleftrightarrow>
     (\<exists>y1 y2 y3 y4 m1 m2 d1 d2.
        d = [y1, y2, y3, y4, 45, m1, m2, 45, d1, d2] \<and>
        list_all (is_decimal E) [y1, y2, y3, y4, m1, m2, d1, d2])) \<and>
   \<not> date_ok E (ustr ''24-06-01'') \<and>
   \<not> date_ok E (ustr ''2024-6-1'') \<and>
   \<not> date_ok E (ustr ''2024/06/01'') \<and>
   date_ok E (ustr ''2024-06-01'') \<and>
   date_ok E (ustr ''9999-99-99'')"
proof -
  have "\<not> date_ok E (ustr ''24-06-01'')" by (simp add: date_ok_shape)
  moreover have "\<not> date_ok E (ustr ''2024-6-1'')" by (simp add: date_ok_shape)
  moreover have "\<not> date_ok E (ustr ''2024/06/01'')" by (simp add: date_ok_shape)
  moreover have "date_ok E (ustr ''2024-06-01'')"
    by (simp add: date_ok_shape ascii_digit_decimal)
  moreover have "date_ok E (ustr ''9999-99-99'')"
    by (simp add: date_ok_shape ascii_digit_decimal)
  ultimately show ?thesis using date_ok_shape[of E d] by blast
qed

section \<open>The error paths of the two scripts\<close>

text \<open>The message of line 10 of \<open>update_data_page.py\<close>, with the date between quotes.\<close>

lemma date_message_eq:
  "date_message E date =
     Exception (ustr ''Date '' @ [39] @ date @ [39] @ ustr '' should be in yyyy-mm-dd format'')"
  by (simp add: date_message_def py_format_def prepend_def parse_field_def keep_def
      get_field_object_def lookup_arg_def do_conversion_def render_field_def Let_def)

text \<open>
  C6. When there are enough arguments and the date fails the check, the run ends with
  an exception whose message quotes the date, and nothing was asked of the wiki client:
  the trace is empty.
\<close>

theorem malformed_date_aborts:
  assumes "4 \<le> length argv"
    and "\<not> date_ok E (argv ! 2)"
  shows "update_data_page E argv =
     (Some (Exception (ustr ''Date '' @ [39] @ argv ! 2 @ [39]
              @ ustr '' should be in yyyy-mm-dd format'')), [])"
  using assms by (simp add: update_data_page_def date_message_eq)

theorem malformed_date_aborts_witness:
  "\<not> date_ok demo_env (ustr ''2024/06/01'') \<and>
   update_data_page demo_env
     [ustr ''update_data_page.py'', ustr ''Title'', ustr ''2024/06/01'', ustr ''summary''] =
     (Some (Exception (ustr ''Date '' @ [39] @ ustr ''2024/06/01'' @ [39]
              @ ustr '' should be in yyyy-mm-dd format'')), [])"
proof -
  have h: "\<not> date_ok demo_env
      ([ustr ''update_data_page.py'', ustr ''Title'', ustr ''2024/06/01'', ustr ''summary''] ! 2)"
    by (simp add: date_ok_shape)
  show ?thesis
    using h malformed_date_aborts[OF _ h] by simp
qed

text \<open>
  C8. With fewer than three arguments after the script's name, either script ends with
  its usage exception before anything else: no file was read and nothing was asked of
  the wiki client.
\<close>

theorem too_few_arguments_abort:
  assumes "length argv < 4"
  shows "save_json E argv =
           (Some (Exception (ustr
              ''provide format string and title and edit summary (and optionally filename)'')),
            []) \<and>
         update_data_page E argv =
           (Some (Exception (ustr ''provide title and date of dump and edit summary'')), [])"
  using assms by (simp add: save_json_def update_data_page_def)

theorem too_few_arguments_abort_witness:
  "save_json demo_env [ustr ''save_json.py'', ustr ''{}'', ustr ''Title''] =
           (Some (Exception (ustr
              ''provide format string and title and edit summary (and optionally filename)'')),
            []) \<and>
   update_data_page demo_env [ustr ''update_data_page.py'', ustr ''Title'', ustr ''2024-06-01''] =
           (Some (Exception (ustr ''provide title and date of dump and edit summary'')), [])"
  using too_few_arguments_abort[of "[ustr ''save_json.py'', ustr ''{}'', ustr ''Title'']" demo_env]
    too_few_arguments_abort[of
      "[ustr ''update_data_page.py'', ustr ''Title'', ustr ''2024-06-01'']" demo_env]
  by simp

section \<open>Formatting and decoding without braces or escapes\<close>



text \<open>
  An ASCII string encodes to itself, and bytes without a backslash decode to the code
  points of the same numbers.
\<close>

lemma utf8_encode_ascii:
  "list_all (\<lambda>c. c < 128) s \<Longrightarrow> utf8_encode s = Inr s"
  by (induction s) (simp_all add: utf8_char_def emit_def)

lemma unicode_escape_plain:
  "list_all (\<lambda>c. c \<noteq> 92) bs \<Longrightarrow> unicode_escape E bs = Inr bs"
  by (induction bs) (simp_all add: emit_def)

lemma decode_format_ascii:
  assumes "list_all (\<lambda>c. c < 128) s" and "list_all (\<lambda>c. c \<noteq> 92) s"
  shows "decode_format E s = Inr s"
  using assms by (simp add: decode_format_def utf8_encode_ascii unicode_escape_plain)

text \<open>
  C4 (decoding a string without backslash escapes gives the string back) holds for ASCII
  strings, as \<open>decode_format_ascii\<close> shows, and fails beyond: the one-character argument
  with code point 233 (e with acute accent) has no backslash, yet its UTF-8 bytes C3 A9
  are decoded byte by byte, as Latin-1, into the two code points 195 and 169.
\<close>

theorem non_ascii_format_mangled:
  "decode_format E [233] = Inr [195, 169] \<and> [195, 169] \<noteq> [233::nat]"
  by (simp add: decode_format_def utf8_char_def emit_def)

section \<open>The text that \<open>save_json.py\<close> saves\<close>

text \<open>
  C9. With no fourth argument the format string, once decoded, is the text of the page,
  braces and all: it is saved as it is, and no file is read.
\<close>

theorem no_filename_verbatim:
  assumes "length argv = 4"
    and "decode_format E (argv ! 1) = Inr f"
    and "site_connect E (ustr ''en'') = None"
  shows "save_json E argv =
     (page_save E (argv ! 2) f (argv ! 3) False,
      [SiteConnect (ustr ''en''), PageHandle (argv ! 2),
       PageSave (argv ! 2) f (argv ! 3) False])"
  using assms by (simp add: save_json_def read_content_def page_text_def)

theorem no_filename_verbatim_witness:
  "decode_format demo_env (ustr ''{}'') = Inr (ustr ''{}'') \<and>
   save_json demo_env [ustr ''save_json.py'', ustr ''{}'', ustr ''Title'', ustr ''summary''] =
     (None, [SiteConnect (ustr ''en''), PageHandle (ustr ''Title''),
             PageSave (ustr ''Title'') (ustr ''{}'') (ustr ''summary'') False])"
proof -
  have d: "decode_format demo_env
      ([ustr ''save_json.py'', ustr ''{}'', ustr ''Title'', ustr ''summary''] ! 1)
        = Inr (ustr ''{}'')"
    by (simp add: decode_format_ascii)
  have s: "site_connect demo_env (ustr ''en'') = None"
    by (simp add: demo_env_def)
  have p: "page_save demo_env t x y b = None" for t x y b
    by (simp add: demo_env_def)
  show ?thesis
    using d no_filename_verbatim[OF _ d s] by (simp add: p)
qed

text \<open>
  C10. When the file named by the fourth argument is read and is empty, \<open>if content:\<close>
  fails, nothing is substituted and the decoded format string is the text of the page.
\<close>

theorem empty_file_verbatim:
  assumes "5 \<le> length argv"
    and "decode_format E (argv ! 1) = Inr f"
    and "file_read E (argv ! 4) = Inr []"
    and "site_connect E (ustr ''en'') = None"
  shows "save_json E argv =
     (page_save E (argv ! 2) f (argv ! 3) False,
      [FileRead (argv ! 4), SiteConnect (ustr ''en''), PageHandle (argv ! 2),
       PageSave (argv ! 2) f (argv ! 3) False])"
  using assms by (simp add: save_json_def read_content_def page_text_def)

theorem empty_file_verbatim_witness:
  "file_read demo_env (ustr ''empty.json'') = Inr [] \<and>
   save_json demo_env
     [ustr ''save_json.py'', ustr ''{}'', ustr ''Title'', ustr ''summary'', ustr ''empty.json''] =
     (None, [FileRead (ustr ''empty.json''), SiteConnect (ustr ''en''),
             PageHandle (ustr ''Title''),
             PageSave (ustr ''Title'') (ustr ''{}'') (ustr ''summary'') False])"
proof -
  let ?argv = "[ustr ''save_json.py'', ustr ''{}'', ustr ''Title'', ustr ''summary'',
                ustr ''empty.json'']"
  have d: "decode_format demo_env (?argv ! 1) = Inr (ustr ''{}'')"
    by (simp add: decode_format_ascii)
  have r: "file_read demo_env (?argv ! 4) = Inr []"
    by (simp add: demo_env_def)
  have s: "site_connect demo_env (ustr ''en'') = None"
    by (simp add: demo_env_def)
  have p: "page_save demo_env t x y b = None" for t x y b
    by (simp add: demo_env_def)
  show ?thesis
    using r empty_file_verbatim[OF _ d r s] by (simp add: p)
qed



text \<open>
  Fields with a format specification, a conversion or a lookup are handed to the
  builtins: \<open>{:>10}\<close> is \<open>format(c, ">10")\<close>, \<open>{!r}\<close> is \<open>repr(c)\<close>, and \<open>{0[0]}\<close>
  is the object that the lookup \<open>[0]\<close> reaches from \<open>c\<close>.
\<close>

lemma py_format_spec_field:
  "py_format E (ustr ''{:>10}'') [c] = builtin_format E (Str c) (ustr ''>10'')"
  by (simp add: py_format_def prepend_def parse_field_def keep_def with_conv_def
      get_field_object_def lookup_arg_def do_conversion_def render_field_def Let_def
      split: sum.splits)

lemma py_format_repr_field:
  "py_format E (ustr ''{!r}'') [c] = builtin_conv E 114 (Str c)"
  by (simp add: py_format_def prepend_def parse_field_def keep_def with_conv_def
      get_field_object_def lookup_arg_def do_conversion_def render_field_def Let_def
      split: sum.splits)

lemma py_format_lookup_field:
  "py_format E (ustr ''{0[0]}'') [c] =
     (case field_lookup E c (ustr ''[0]'') of
        Inl err \<Rightarrow> Inl err
      | Inr obj \<Rightarrow> render_field E obj [])"
  by (simp add: py_format_def prepend_def parse_field_def keep_def with_conv_def
      get_field_object_def lookup_arg_def do_conversion_def Let_def to_decimal_def
      PY_SSIZE_T_MAX_def split: sum.splits)




end
